theory Spec2Isabelle
  imports Complex_Main "HOL-Library.AList"
begin

section \<open>Python values and errors\<close>

text \<open>
  The exceptions the two modules raise. \<open>AssertionError\<close> comes from the \<^verbatim>\<open>assert\<close>
  statements of \<^verbatim>\<open>factors_of_n\<close>, \<open>TypeError\<close> from \<^verbatim>\<open>int()\<close> applied to a complex
  number, \<open>OverflowError\<close> from the conversion of an int that is too large for a
  float, \<open>AttributeError\<close> from reading \<^verbatim>\<open>.dc_powers\<close> of a value that has none; the
  others are raised by name in \<^verbatim>\<open>polynomial.py\<close>.
\<close>

datatype error =
  AssertionError | TypeError | OverflowError | NotImplementedError | Warning | AttributeError

section \<open>class\_number.py\<close>

subsection \<open>The square root of an int, in double precision\<close>

text \<open>
  \<^verbatim>\<open>int(n ** 0.5)\<close> goes through double-precision floats, in three steps.

  \<^enum> Python converts the int \<open>n\<close> to the nearest double, ties to even. A double has 53
    significant bits; \<open>round_to_53\<close> keeps the 53 leading bits of \<open>n\<close> and rounds on
    the rest. When the result is \<open>2\<^sup>1\<^sup>0\<^sup>2\<^sup>4\<close> or more there is no such double and
    Python raises \<open>OverflowError\<close>: \<open>float_of_int\<close>.
  \<^enum> The power is C's \<^verbatim>\<open>pow(x, 0.5)\<close>. C libraries do not agree on the last bit of
    \<^verbatim>\<open>pow\<close>, so the function is a parameter of the factorizer below: \<open>pow_half x\<close>
    stands for \<^verbatim>\<open>int(pow(x, 0.5))\<close> on the double \<open>x\<close>.
  \<^enum> \<open>sqrt_double_trunc\<close> is that parameter for a \<^verbatim>\<open>pow\<close> that returns the double
    nearest to the square root, ties to even: with \<open>K\<close> the integer square root of
    \<open>x * 2\<^sup>1\<^sup>0\<^sup>6\<close>, the two doubles around the root are the multiples \<open>lo\<close> and
    \<open>lo + 2\<^sup>e\<close> of \<open>2\<^sup>e\<close> around \<open>K\<close> (scaled by \<open>2\<^sup>5\<^sup>3\<close>), the root is compared with
    their midpoint through the squares, and \<^verbatim>\<open>int()\<close> drops the 53 fraction bits.
\<close>

fun bitlen :: "int \<Rightarrow> nat" where
  "bitlen n = (if n \<le> 0 then 0 else Suc (bitlen (n div 2)))"

declare bitlen.simps [simp del]

fun sqrt_bits :: "int \<Rightarrow> nat \<Rightarrow> int \<Rightarrow> int" where
  "sqrt_bits x 0 r = r"
| "sqrt_bits x (Suc b) r =
     (if (r + 2 ^ b) * (r + 2 ^ b) \<le> x then sqrt_bits x b (r + 2 ^ b) else sqrt_bits x b r)"

definition floor_sqrt :: "int \<Rightarrow> int" where
  "floor_sqrt x = sqrt_bits x (bitlen x) 0"

definition round_to_53 :: "int \<Rightarrow> int" where
  "round_to_53 n =
     (let e = bitlen n - 53; q = n div 2 ^ e; r = n mod 2 ^ e in
      if 2 * r < 2 ^ e \<or> (2 * r = 2 ^ e \<and> even q) then q * 2 ^ e else (q + 1) * 2 ^ e)"

definition float_of_int :: "int \<Rightarrow> error + int" where
  "float_of_int n = (let x = round_to_53 n in if 2 ^ 1024 \<le> x then Inl OverflowError else Inr x)"

definition sqrt_double_trunc :: "int \<Rightarrow> int" where
  "sqrt_double_trunc x =
     (if x \<le> 0 then 0
      else let X = x * 2 ^ 106; K = floor_sqrt X; e = bitlen K - 53; q = K div 2 ^ e;
               lo = q * 2 ^ e; mid = lo + 2 ^ (e - 1);
               d = (if X < mid * mid \<or> (X = mid * mid \<and> even q) then lo else lo + 2 ^ e)
           in d div 2 ^ 53)"

subsection \<open>The square root of a quotient\<close>

text \<open>
  \<^verbatim>\<open>int((D / 3) ** 0.5)\<close> in \<^verbatim>\<open>get_class_number\<close> is kept at its mathematical value:
  the greatest \<open>k\<close> with \<open>q * k\<^sup>2 \<le> p\<close>, found by a downward search from \<open>p\<close>. On
  the discriminants the module's driver uses (all below 170) the double computation
  gives the same integer.
\<close>

fun sqrt_search :: "nat \<Rightarrow> nat \<Rightarrow> nat \<Rightarrow> nat" where
  "sqrt_search p q 0 = 0"
| "sqrt_search p q (Suc k) =
     (if q * (Suc k * Suc k) \<le> p then Suc k else sqrt_search p q k)"

definition int_sqrt_quot :: "int \<Rightarrow> int \<Rightarrow> int" where
  "int_sqrt_quot p q = int (sqrt_search (nat p) (nat q) (nat p))"

subsection \<open>factors\_of\_n\<close>

text \<open>
  \<^verbatim>\<open>
  def factors_of_n(n):
      assert isinstance(n, int)
      assert n > -1
      ls_out = [(1, n)]
      for i in range(2, int(n**0.5)+1):
          if n % i == 0:
              ls_out.append((i, n//i))
      return ls_out
  \<close>
  The argument is typed \<open>int\<close>, so the first assertion holds. Python's \<^verbatim>\<open>%\<close> and
  \<^verbatim>\<open>//\<close> on integers are floored, as \<open>mod\<close> and \<open>div\<close> on \<open>int\<close> are.
  \<open>factors_of_n_with\<close> is the function for a given C library \<^verbatim>\<open>pow\<close>;
  \<open>factors_of_n\<close> is the function with the correctly rounded one.
\<close>

definition factors_step :: "int \<Rightarrow> int \<Rightarrow> (int \<times> int) list \<Rightarrow> (int \<times> int) list" where
  "factors_step n i ls_out = (if n mod i = 0 then ls_out @ [(i, n div i)] else ls_out)"

definition factors_of_n_with :: "(int \<Rightarrow> int) \<Rightarrow> int \<Rightarrow> error + (int \<times> int) list" where
  "factors_of_n_with pow_half n =
     (if n > -1
      then (case float_of_int n of
              Inl e \<Rightarrow> Inl e
            | Inr x \<Rightarrow> Inr (fold (factors_step n) [2..pow_half x] [(1, n)]))
      else Inl AssertionError)"

definition factors_of_n :: "int \<Rightarrow> error + (int \<times> int) list" where
  "factors_of_n n = factors_of_n_with sqrt_double_trunc n"

subsection \<open>get\_class\_number\<close>

text \<open>
  \<^verbatim>\<open>
  def get_class_number(D, debug=False):
      abs_b_max = int((D / 3) ** 0.5)
      count = 0
      for b in range(abs_b_max + 1):
          b2 = b ** 2
          temp = b2 + D
          if temp % 4 != 0:
              continue
          else:
              temp = temp // 4
              ls_fac = factors_of_n(temp)
              for fac_tup in ls_fac:
                  if fac_tup[0] >= b and fac_tup[1] >= b:
                      count += 1
      return count
  \<close>
  The \<^verbatim>\<open>debug\<close> flag only prints and is left out. For a negative \<open>D\<close> the float
  \<^verbatim>\<open>D / 3\<close> is negative, its power \<^verbatim>\<open>** 0.5\<close> is a complex number in Python 3, and
  \<^verbatim>\<open>int()\<close> of a complex number raises \<open>TypeError\<close>.
\<close>

definition count_step :: "int \<Rightarrow> int \<times> int \<Rightarrow> int \<Rightarrow> int" where
  "count_step b fac_tup count =
     (if fst fac_tup \<ge> b \<and> snd fac_tup \<ge> b then count + 1 else count)"

definition class_step :: "int \<Rightarrow> int \<Rightarrow> int \<Rightarrow> error + int" where
  "class_step D b count =
     (let b2 = b ^ 2; temp = b2 + D in
      if temp mod 4 \<noteq> 0 then Inr count
      else (case factors_of_n (temp div 4) of
              Inl e \<Rightarrow> Inl e
            | Inr ls_fac \<Rightarrow> Inr (fold (count_step b) ls_fac count)))"

fun class_loop :: "int \<Rightarrow> int list \<Rightarrow> int \<Rightarrow> error + int" where
  "class_loop D [] count = Inr count"
| "class_loop D (b # bs) count =
     (case class_step D b count of
        Inl e \<Rightarrow> Inl e
      | Inr count' \<Rightarrow> class_loop D bs count')"

definition get_class_number :: "int \<Rightarrow> error + int" where
  "get_class_number D =
     (if D < 0 then Inl TypeError
      else class_loop D [0..int_sqrt_quot D 3] 0)"

section \<open>polynomial.py\<close>

subsection \<open>Numbers\<close>

text \<open>
  A coefficient is a Python \<^verbatim>\<open>int\<close> (unbounded) or a \<^verbatim>\<open>float\<close>. A finite double is a
  rational number; the model keeps the value of a float as a \<open>rat\<close> and takes float
  arithmetic to be exact (no rounding, no infinities, no NaN). Arithmetic between two
  ints gives an int, anything else a float; \<^verbatim>\<open>==\<close> and \<^verbatim>\<open>!=\<close> compare the numeric
  values across the two types; \<^verbatim>\<open>int(c)\<close> truncates a float towards zero.
\<close>

datatype pynum = PyInt int | PyFloat rat

fun num_val :: "pynum \<Rightarrow> rat" where
  "num_val (PyInt i) = of_int i"
| "num_val (PyFloat r) = r"

definition py_eq :: "pynum \<Rightarrow> pynum \<Rightarrow> bool" where
  "py_eq a b = (num_val a = num_val b)"

fun py_add :: "pynum \<Rightarrow> pynum \<Rightarrow> pynum" where
  "py_add (PyInt a) (PyInt b) = PyInt (a + b)"
| "py_add a b = PyFloat (num_val a + num_val b)"

fun py_sub :: "pynum \<Rightarrow> pynum \<Rightarrow> pynum" where
  "py_sub (PyInt a) (PyInt b) = PyInt (a - b)"
| "py_sub a b = PyFloat (num_val a - num_val b)"

fun py_mul :: "pynum \<Rightarrow> pynum \<Rightarrow> pynum" where
  "py_mul (PyInt a) (PyInt b) = PyInt (a * b)"
| "py_mul a b = PyFloat (num_val a * num_val b)"

fun py_int :: "pynum \<Rightarrow> int" where
  "py_int (PyInt i) = i"
| "py_int (PyFloat r) = (if r < 0 then \<lceil>r\<rceil> else \<lfloor>r\<rfloor>)"

subsection \<open>Dictionaries\<close>

text \<open>
  A \<^verbatim>\<open>dict\<close> keeps its items in insertion order: an association list whose keys are
  distinct. \<^verbatim>\<open>d[k] = c\<close> replaces the value of a key that is present, in place, and
  appends a new key at the end, which is \<open>AList.update\<close>. \<^verbatim>\<open>d.get(k, dflt)\<close> is
  \<open>dict_get\<close>. Equality of two dicts does not look at the order: equal sizes, and every
  key of the first is a key of the second with an equal (\<^verbatim>\<open>==\<close>) value. Exponents are
  integers.
\<close>

type_synonym pydict = "(int \<times> pynum) list"

definition dict_get :: "pydict \<Rightarrow> int \<Rightarrow> pynum \<Rightarrow> pynum" where
  "dict_get d k dflt = (case map_of d k of None \<Rightarrow> dflt | Some c \<Rightarrow> c)"

definition dict_eq :: "pydict \<Rightarrow> pydict \<Rightarrow> bool" where
  "dict_eq d1 d2 =
     (length d1 = length d2 \<and>
      list_all (\<lambda>(k, c). case map_of d2 k of None \<Rightarrow> False | Some c' \<Rightarrow> py_eq c c') d1)"

subsection \<open>BasicPolynomial: construction\<close>

text \<open>
  \<^verbatim>\<open>
  def __init__(self, dc_powers, v='x'):
      self.v = v
      self.dc_powers = {p: c for p, c in dc_powers.items() if c != 0}
      self.dc_powers = {p: int(c) if int(c) == c else c for p, c in self.dc_powers.items()}
  \<close>
\<close>

record BasicPolynomial =
  v :: string
  dc_powers :: pydict

definition remove_zeros :: "pydict \<Rightarrow> pydict" where
  "remove_zeros d = filter (\<lambda>(p, c). \<not> py_eq c (PyInt 0)) d"

definition floats_to_ints :: "pydict \<Rightarrow> pydict" where
  "floats_to_ints d =
     map (\<lambda>(p, c). (p, if py_eq (PyInt (py_int c)) c then PyInt (py_int c) else c)) d"

definition poly_init :: "pydict \<Rightarrow> string \<Rightarrow> BasicPolynomial" where
  "poly_init dc lbl = \<lparr>v = lbl, dc_powers = floats_to_ints (remove_zeros dc)\<rparr>"

subsection \<open>BasicPolynomial: addition and subtraction\<close>

text \<open>
  \<^verbatim>\<open>
  def __add__(self, other):
      dc = self.dc_powers.copy()
      for p, c in other.dc_powers.items():
          dc[p] = dc.get(p, 0) + c
      if self.v != other.v:
          raise Warning('variable type not consistent')
      return BasicPolynomial(dc, self.v)
  \<close>
  and \<^verbatim>\<open>__sub__\<close> the same with \<^verbatim>\<open>-\<close>. The local dict \<^verbatim>\<open>dc\<close> is the accumulator of
  a fold over the items of the other operand.
\<close>

definition add_step :: "int \<times> pynum \<Rightarrow> pydict \<Rightarrow> pydict" where
  "add_step = (\<lambda>(p, c) dc. AList.update p (py_add (dict_get dc p (PyInt 0)) c) dc)"

definition poly_add :: "BasicPolynomial \<Rightarrow> BasicPolynomial \<Rightarrow> error + BasicPolynomial" where
  "poly_add self other =
     (let dc = fold add_step (dc_powers other) (dc_powers self) in
      if v self \<noteq> v other then Inl Warning else Inr (poly_init dc (v self)))"

definition sub_step :: "int \<times> pynum \<Rightarrow> pydict \<Rightarrow> pydict" where
  "sub_step = (\<lambda>(p, c) dc. AList.update p (py_sub (dict_get dc p (PyInt 0)) c) dc)"

definition poly_sub :: "BasicPolynomial \<Rightarrow> BasicPolynomial \<Rightarrow> error + BasicPolynomial" where
  "poly_sub self other =
     (let dc = fold sub_step (dc_powers other) (dc_powers self) in
      if v self \<noteq> v other then Inl Warning else Inr (poly_init dc (v self)))"

subsection \<open>BasicPolynomial: multiplication\<close>

text \<open>
  \<^verbatim>\<open>
  def __mul__(self, other):
      if isinstance(other, BasicPolynomial):
          dc = dict()
          for p1, c1 in self.dc_powers.items():
              for p2, c2 in other.dc_powers.items():
                  p = p1 + p2
                  c = c1*c2
                  dc[p] = c + dc.get(p, 0)
          if self.v != other.v:
              raise Warning('variable type not consistent')
      elif isinstance(other, (int, float)):
          dc = {p: c*other for p, c in self.dc_powers.items()}
      else:
          raise NotImplementedError(type(other))
      return BasicPolynomial(dc, self.v)
  \<close>
  The operand is any Python value: a number, a polynomial, or something else, for which
  an exception object stands here (it is also what \<^verbatim>\<open>__pow__\<close> returns for a negative
  power).
\<close>

datatype pyval = VNum pynum | VPoly BasicPolynomial | VExc error

definition mul_step :: "int \<times> pynum \<Rightarrow> int \<times> pynum \<Rightarrow> pydict \<Rightarrow> pydict" where
  "mul_step = (\<lambda>(p1, c1) (p2, c2) dc.
     let p = p1 + p2; c = py_mul c1 c2
     in AList.update p (py_add c (dict_get dc p (PyInt 0))) dc)"

definition mul_terms :: "pydict \<Rightarrow> pydict \<Rightarrow> pydict" where
  "mul_terms d1 d2 = fold (\<lambda>t1 dc. fold (mul_step t1) d2 dc) d1 []"

fun poly_mul :: "BasicPolynomial \<Rightarrow> pyval \<Rightarrow> error + BasicPolynomial" where
  "poly_mul self (VPoly other) =
     (let dc = mul_terms (dc_powers self) (dc_powers other) in
      if v self \<noteq> v other then Inl Warning else Inr (poly_init dc (v self)))"
| "poly_mul self (VNum other) =
     Inr (poly_init (map (\<lambda>(p, c). (p, py_mul c other)) (dc_powers self)) (v self))"
| "poly_mul self (VExc e) = Inl NotImplementedError"

subsection \<open>BasicPolynomial: power\<close>

text \<open>
  \<^verbatim>\<open>
  def __pow__(self, power, modulo=None):
      if not isinstance(power, int):
          raise NotImplementedError('Non-Integer power')
      if power == 0:
          return 1
      elif power < 0:
          return NotImplementedError('Negative power')
      elif power == 1:
          return self
      else:
          ans = self
          for i in range(power-1):
              ans *= self
          return ans
  \<close>
  The class has no \<^verbatim>\<open>__imul__\<close>, so \<^verbatim>\<open>ans *= self\<close> is \<^verbatim>\<open>ans = ans.__mul__(self)\<close>.
  The negative branch returns the exception object; it does not raise it. The argument
  \<^verbatim>\<open>power\<close> is written \<open>pw\<close>.
\<close>

fun pow_loop :: "BasicPolynomial \<Rightarrow> nat \<Rightarrow> BasicPolynomial \<Rightarrow> error + BasicPolynomial" where
  "pow_loop self 0 ans = Inr ans"
| "pow_loop self (Suc k) ans =
     (case poly_mul ans (VPoly self) of
        Inl e \<Rightarrow> Inl e
      | Inr ans' \<Rightarrow> pow_loop self k ans')"

fun poly_pow :: "BasicPolynomial \<Rightarrow> pyval \<Rightarrow> error + pyval" where
  "poly_pow self (VNum (PyInt pw)) =
     (if pw = 0 then Inr (VNum (PyInt 1))
      else if pw < 0 then Inr (VExc NotImplementedError)
      else if pw = 1 then Inr (VPoly self)
      else (case pow_loop self (nat (pw - 1)) self of
              Inl e \<Rightarrow> Inl e
            | Inr ans \<Rightarrow> Inr (VPoly ans)))"
| "poly_pow self (VNum (PyFloat pw)) = Inl NotImplementedError"
| "poly_pow self (VPoly pw) = Inl NotImplementedError"
| "poly_pow self (VExc pw) = Inl NotImplementedError"

subsection \<open>BasicPolynomial: equality\<close>

text \<open>
  \<^verbatim>\<open>
  def __eq__(self, other):
      if self.is_constant() and isinstance(other, (int, float)):
          return self.dc_powers.get(1, 0) == other
      return self.dc_powers == other.dc_powers

  def is_constant(self):
      return len(set(self.dc_powers.keys()) - {0}) == 0
  \<close>
  A number or an exception object has no attribute \<^verbatim>\<open>dc_powers\<close>: reading it raises
  \<open>AttributeError\<close>.
\<close>

definition is_constant :: "BasicPolynomial \<Rightarrow> bool" where
  "is_constant self = (card (set (map fst (dc_powers self)) - {0}) = 0)"

fun poly_eq :: "BasicPolynomial \<Rightarrow> pyval \<Rightarrow> error + bool" where
  "poly_eq self (VNum other) =
     (if is_constant self
      then Inr (py_eq (dict_get (dc_powers self) 1 (PyInt 0)) other)
      else Inl AttributeError)"
| "poly_eq self (VPoly other) = Inr (dict_eq (dc_powers self) (dc_powers other))"
| "poly_eq self (VExc e) = Inl AttributeError"

subsection \<open>The invariant of the term map\<close>



section \<open>polynomial.py over a store of objects\<close>

text \<open>
  Whether an operator returns a new object and whether it writes to an object that
  already exists cannot be read off the values above. For these questions the same
  methods are written again over a store of objects. An object is a dict, or a
  polynomial whose field \<^verbatim>\<open>dc_powers\<close> holds the address of a dict. An address is a
  position in the store; creating an object appends it.
\<close>

datatype obj = ODict pydict | OPoly string nat

type_synonym store = "obj list"

text \<open>A value is a number, a reference to an object, or an exception object.\<close>

datatype rval = RNum pynum | RRef nat | RExc error

definition alloc :: "store \<Rightarrow> obj \<Rightarrow> store \<times> nat" where
  "alloc s ob = (s @ [ob], length s)"

definition dict_at :: "store \<Rightarrow> nat \<Rightarrow> pydict option" where
  "dict_at s a =
     (if a < length s then (case s ! a of ODict d \<Rightarrow> Some d | OPoly lbl d \<Rightarrow> None) else None)"

text \<open>
  \<open>read_poly\<close> reads the label and the items of the polynomial at an address; it fails
  on anything that is not a polynomial with a dict behind it.
\<close>

definition read_poly :: "store \<Rightarrow> nat \<Rightarrow> BasicPolynomial option" where
  "read_poly s a =
     (if a < length s
      then (case s ! a of
              ODict d \<Rightarrow> None
            | OPoly lbl d \<Rightarrow>
                (case dict_at s d of
                   None \<Rightarrow> None
                 | Some items \<Rightarrow> Some \<lparr>v = lbl, dc_powers = items\<rparr>))
      else None)"

text \<open>\<^verbatim>\<open>dc[k] = c\<close> writes to the dict object at the address \<open>a\<close>; \<^verbatim>\<open>dc.get(k, dflt)\<close> reads it.\<close>

definition dict_setitem :: "store \<Rightarrow> nat \<Rightarrow> int \<Rightarrow> pynum \<Rightarrow> store" where
  "dict_setitem s a k c =
     (case dict_at s a of None \<Rightarrow> s | Some d \<Rightarrow> s[a := ODict (AList.update k c d)])"

definition st_dict_get :: "store \<Rightarrow> nat \<Rightarrow> int \<Rightarrow> pynum \<Rightarrow> pynum" where
  "st_dict_get s a k dflt = (case dict_at s a of None \<Rightarrow> dflt | Some d \<Rightarrow> dict_get d k dflt)"

text \<open>
  \<^verbatim>\<open>BasicPolynomial(dc, v)\<close>: each of the two comprehensions of \<^verbatim>\<open>__init__\<close> builds a new
  dict (the second from the items of the first), and the new polynomial refers to the
  second.
\<close>

definition st_init :: "store \<Rightarrow> nat \<Rightarrow> string \<Rightarrow> store \<times> (error + nat)" where
  "st_init s dc lbl =
     (case dict_at s dc of
        None \<Rightarrow> (s, Inl AttributeError)
      | Some items \<Rightarrow>
          let (s1, d1) = alloc s (ODict (remove_zeros items));
              (s2, d2) = alloc s1 (ODict (floats_to_ints (remove_zeros items)));
              (s3, self) = alloc s2 (OPoly lbl d2)
          in (s3, Inr self))"

text \<open>
  \<^verbatim>\<open>__add__\<close> and \<^verbatim>\<open>__sub__\<close>: \<^verbatim>\<open>dc = self.dc_powers.copy()\<close> creates a dict; the loop
  runs over the items of the other operand and writes to \<^verbatim>\<open>dc\<close>. An operand that is
  not a polynomial has no \<^verbatim>\<open>dc_powers\<close>.
\<close>

definition st_add_step :: "nat \<Rightarrow> int \<times> pynum \<Rightarrow> store \<Rightarrow> store" where
  "st_add_step dc = (\<lambda>(p, c) s. dict_setitem s dc p (py_add (st_dict_get s dc p (PyInt 0)) c))"

definition st_sub_step :: "nat \<Rightarrow> int \<times> pynum \<Rightarrow> store \<Rightarrow> store" where
  "st_sub_step dc = (\<lambda>(p, c) s. dict_setitem s dc p (py_sub (st_dict_get s dc p (PyInt 0)) c))"

definition read_operand :: "store \<Rightarrow> rval \<Rightarrow> BasicPolynomial option" where
  "read_operand s x = (case x of RRef b \<Rightarrow> read_poly s b | RNum n \<Rightarrow> None | RExc e \<Rightarrow> None)"

definition st_add :: "store \<Rightarrow> nat \<Rightarrow> rval \<Rightarrow> store \<times> (error + nat)" where
  "st_add s self other =
     (case read_poly s self of
        None \<Rightarrow> (s, Inl AttributeError)
      | Some P \<Rightarrow>
          let (s1, dc) = alloc s (ODict (dc_powers P)) in
          (case read_operand s1 other of
             None \<Rightarrow> (s1, Inl AttributeError)
           | Some Q \<Rightarrow>
               let s2 = fold (st_add_step dc) (dc_powers Q) s1 in
               if v P \<noteq> v Q then (s2, Inl Warning) else st_init s2 dc (v P)))"

definition st_sub :: "store \<Rightarrow> nat \<Rightarrow> rval \<Rightarrow> store \<times> (error + nat)" where
  "st_sub s self other =
     (case read_poly s self of
        None \<Rightarrow> (s, Inl AttributeError)
      | Some P \<Rightarrow>
          let (s1, dc) = alloc s (ODict (dc_powers P)) in
          (case read_operand s1 other of
             None \<Rightarrow> (s1, Inl AttributeError)
           | Some Q \<Rightarrow>
               let s2 = fold (st_sub_step dc) (dc_powers Q) s1 in
               if v P \<noteq> v Q then (s2, Inl Warning) else st_init s2 dc (v P)))"

text \<open>\<^verbatim>\<open>__mul__\<close>: \<^verbatim>\<open>dc = dict()\<close>, or the dict of the comprehension for a scalar.\<close>

definition st_mul_step :: "nat \<Rightarrow> int \<times> pynum \<Rightarrow> int \<times> pynum \<Rightarrow> store \<Rightarrow> store" where
  "st_mul_step dc = (\<lambda>(p1, c1) (p2, c2) s.
     let p = p1 + p2; c = py_mul c1 c2
     in dict_setitem s dc p (py_add c (st_dict_get s dc p (PyInt 0))))"

definition st_mul :: "store \<Rightarrow> nat \<Rightarrow> rval \<Rightarrow> store \<times> (error + nat)" where
  "st_mul s self other =
     (case read_poly s self of
        None \<Rightarrow> (s, Inl AttributeError)
      | Some P \<Rightarrow>
          (case other of
             RRef b \<Rightarrow>
               (case read_poly s b of
                  None \<Rightarrow> (s, Inl NotImplementedError)
                | Some Q \<Rightarrow>
                    let (s1, dc) = alloc s (ODict []);
                        s2 = fold (\<lambda>t1 st. fold (st_mul_step dc t1) (dc_powers Q) st)
                               (dc_powers P) s1
                    in if v P \<noteq> v Q then (s2, Inl Warning) else st_init s2 dc (v P))
           | RNum x \<Rightarrow>
               let (s1, dc) = alloc s (ODict (map (\<lambda>(p, c). (p, py_mul c x)) (dc_powers P)))
               in st_init s1 dc (v P)
           | RExc e \<Rightarrow> (s, Inl NotImplementedError)))"

text \<open>
  \<^verbatim>\<open>__pow__\<close>: \<^verbatim>\<open>ans = self\<close> copies the reference, and each \<^verbatim>\<open>ans *= self\<close> rebinds
  \<^verbatim>\<open>ans\<close> to the object that \<^verbatim>\<open>__mul__\<close> returns.
\<close>

fun st_pow_loop :: "nat \<Rightarrow> nat \<Rightarrow> store \<Rightarrow> nat \<Rightarrow> store \<times> (error + nat)" where
  "st_pow_loop self 0 s ans = (s, Inr ans)"
| "st_pow_loop self (Suc k) s ans =
     (case st_mul s ans (RRef self) of
        (s', Inl e) \<Rightarrow> (s', Inl e)
      | (s', Inr ans') \<Rightarrow> st_pow_loop self k s' ans')"

fun st_pow :: "store \<Rightarrow> nat \<Rightarrow> rval \<Rightarrow> store \<times> (error + rval)" where
  "st_pow s self (RNum (PyInt pw)) =
     (if pw = 0 then (s, Inr (RNum (PyInt 1)))
      else if pw < 0 then (s, Inr (RExc NotImplementedError))
      else if pw = 1 then (s, Inr (RRef self))
      else (case st_pow_loop self (nat (pw - 1)) s self of
              (s', Inl e) \<Rightarrow> (s', Inl e)
            | (s', Inr ans) \<Rightarrow> (s', Inr (RRef ans))))"
| "st_pow s self (RNum (PyFloat pw)) = (s, Inl NotImplementedError)"
| "st_pow s self (RRef pw) = (s, Inl NotImplementedError)"
| "st_pow s self (RExc pw) = (s, Inl NotImplementedError)"

subsection \<open>What an operator may do to the store\<close>

text \<open>
  \<open>extends s' s\<close>: the store \<open>s'\<close> has every object of \<open>s\<close> at its address,
  unchanged, and possibly more objects after them.
\<close>

definition extends :: "store \<Rightarrow> store \<Rightarrow> bool" where
  "extends s' s = (take (length s) s' = s)"

text \<open>
  The tail shared by the three binary operators, written out: the local dict \<open>X\<close> at
  the first new address, then either the \<open>Warning\<close> or the three objects of the
  constructor.
\<close>

definition finish :: "store \<Rightarrow> pydict \<Rightarrow> string \<Rightarrow> string \<Rightarrow> store \<times> (error + nat)" where
  "finish s X l1 l2 =
     (if l1 \<noteq> l2 then (s @ [ODict X], Inl Warning)
      else (s @ [ODict X, ODict (remove_zeros X), ODict (floats_to_ints (remove_zeros X)),
                 OPoly l1 (length s + 2)], Inr (length s + 3)))"

section \<open>Properties of class\_number.py\<close>

subsection \<open>The truncated square root and the divisor loop\<close>

lemma sqrt_search_le: "sqrt_search p q k \<le> k"
  by (induction k) auto

lemma int_sqrt_quot_bounds:
  assumes "0 \<le> D"
  shows "0 \<le> int_sqrt_quot D q" "int_sqrt_quot D q \<le> D"
proof -
  show "0 \<le> int_sqrt_quot D q" by (simp add: int_sqrt_quot_def)
  have "int (sqrt_search (nat D) (nat q) (nat D)) \<le> int (nat D)"
    using sqrt_search_le[of "nat D" "nat q" "nat D"] by (simp only: of_nat_le_iff)
  with assms show "int_sqrt_quot D q \<le> D" by (simp add: int_sqrt_quot_def)
qed

text \<open>
  Bit lengths, the integer square root, and the conversion of a small int, which is exact.
\<close>

lemma bitlen_le: "n < 2 ^ k \<Longrightarrow> bitlen n \<le> k"
proof (induction k arbitrary: n)
  case 0
  then show ?case by (simp add: bitlen.simps)
next
  case (Suc k)
  show ?case
  proof (cases "n \<le> 0")
    case True
    then show ?thesis by (simp add: bitlen.simps)
  next
    case False
    from Suc.prems have "n div 2 < 2 ^ k" by simp
    then have "bitlen (n div 2) \<le> k" by (rule Suc.IH)
    with False show ?thesis by (subst bitlen.simps) simp
  qed
qed




lemma round_to_53_small:
  assumes "0 \<le> n" "n < 2 ^ 53"
  shows "round_to_53 n = n"
proof -
  have "bitlen n \<le> 53" using assms(2) by (rule bitlen_le)
  then have "bitlen n - 53 = 0" by simp
  then show ?thesis by (simp add: round_to_53_def)
qed

lemma float_of_int_small:
  assumes "0 \<le> n" "n < 2 ^ 52"
  shows "float_of_int n = Inr n"
proof -
  have "n < 2 ^ 53" using assms(2) by simp
  then have "round_to_53 n = n" using assms(1) by (simp add: round_to_53_small)
  moreover have "n < 2 ^ 1024" using assms(2) by simp
  ultimately show ?thesis by (simp add: float_of_int_def)
qed




text \<open>The \<^verbatim>\<open>for\<close> loop appends, in order, one pair for each divisor in its range.\<close>

lemma fold_factors_step:
  "fold (factors_step n) xs acc =
     acc @ map (\<lambda>i. (i, n div i)) (filter (\<lambda>i. n mod i = 0) xs)"
  by (induction xs arbitrary: acc) (simp_all add: factors_step_def)

lemma factors_of_n_with_eq:
  assumes "-1 < n" "float_of_int n = Inr x"
  shows "factors_of_n_with pw n =
     Inr ((1, n) # map (\<lambda>i. (i, n div i)) (filter (\<lambda>i. n mod i = 0) [2..pw x]))"
  using assms by (simp add: factors_of_n_with_def fold_factors_step)


lemma factors_of_n_small:
  assumes "0 \<le> n" "n < 2 ^ 52"
  shows "factors_of_n n =
     Inr ((1, n) # map (\<lambda>i. (i, n div i))
                     (filter (\<lambda>i. n mod i = 0) [2..sqrt_double_trunc n]))"
proof -
  have "-1 < n" using assms(1) by simp
  moreover have "float_of_int n = Inr n" using assms by (rule float_of_int_small)
  ultimately show ?thesis unfolding factors_of_n_def by (rule factors_of_n_with_eq)
qed

text \<open>
  Beyond \<open>2\<^sup>5\<^sup>2\<close> the double root can exceed the true root. At
  \<open>n = (2\<^sup>5\<^sup>3 + 1) * (2\<^sup>5\<^sup>3 + 2)\<close> the nearest double to \<open>n\<close> is \<open>2\<^sup>1\<^sup>0\<^sup>6 + 2\<^sup>5\<^sup>5\<close> and the
  nearest double to its root is \<open>2\<^sup>5\<^sup>3 + 2\<close>, which divides \<open>n\<close>: the loop appends the
  pair \<open>(2\<^sup>5\<^sup>3 + 2, 2\<^sup>5\<^sup>3 + 1)\<close>, whose first component is the larger one.
\<close>

lemma divisor_in_range_listed:
  assumes "-1 < n" "float_of_int n = Inr x" "pw x = r" "2 \<le> r" "n mod r = 0"
  shows "\<exists>rest. factors_of_n_with pw n = Inr ((1, n) # rest) \<and> (r, n div r) \<in> set rest"
  using assms by (simp add: factors_of_n_with_eq)

lemma factors_of_n_unordered_pair:
  "\<exists>rest. factors_of_n ((2 ^ 53 + 1) * (2 ^ 53 + 2))
            = Inr ((1, (2 ^ 53 + 1) * (2 ^ 53 + 2)) # rest)
         \<and> (2 ^ 53 + 2, 2 ^ 53 + 1) \<in> set rest"
proof -
  define n :: int where "n = (2 ^ 53 + 1) * (2 ^ 53 + 2)"
  define x :: int where "x = 2 ^ 106 + 2 ^ 55"
  define r :: int where "r = 2 ^ 53 + 2"
  have 1: "float_of_int n = Inr x" unfolding n_def x_def by code_simp
  have 2: "sqrt_double_trunc x = r" unfolding x_def r_def by code_simp
  have 3: "-1 < n" "2 \<le> r" "n mod r = 0" "n div r = 2 ^ 53 + 1"
    by (simp_all add: n_def r_def)
  have "\<exists>rest. factors_of_n_with sqrt_double_trunc n = Inr ((1, n) # rest)
           \<and> (r, n div r) \<in> set rest"
    using 3(1) 1 2 3(2) 3(3) by (rule divisor_in_range_listed[where pw = sqrt_double_trunc])
  with 3(4) show ?thesis unfolding factors_of_n_def n_def r_def by simp
qed



subsection \<open>The counting loops return\<close>

lemma fold_count_step_ge: "count \<le> fold (count_step b) ls count"
proof (induction ls arbitrary: count)
  case Nil
  show ?case by simp
next
  case (Cons x xs)
  have "count \<le> count_step b x count" by (simp add: count_step_def)
  also have "\<dots> \<le> fold (count_step b) xs (count_step b x count)" by (rule Cons.IH)
  finally show ?case by simp
qed

lemma class_step_returns:
  assumes "0 \<le> D" "b ^ 2 + D < 2 ^ 52"
  shows "\<exists>c. class_step D b count = Inr c \<and> count \<le> c"
proof -
  define m where "m = (b ^ 2 + D) div 4"
  have "0 \<le> b ^ 2 + D" using assms(1) by simp
  then have m: "0 \<le> m" "m < 2 ^ 52" using assms(2) unfolding m_def by linarith+
  from factors_of_n_small[OF m] obtain ls where "factors_of_n m = Inr ls" by blast
  then show ?thesis
    by (simp add: class_step_def Let_def m_def fold_count_step_ge)
qed

lemma class_loop_returns:
  assumes "0 \<le> D" "\<forall>b \<in> set bs. b ^ 2 + D < 2 ^ 52"
  shows "\<exists>c. class_loop D bs count = Inr c \<and> count \<le> c"
  using assms(2)
proof (induction bs arbitrary: count)
  case Nil
  show ?case by simp
next
  case (Cons b bs)
  have "b ^ 2 + D < 2 ^ 52" using Cons.prems by simp
  then obtain c where c: "class_step D b count = Inr c" "count \<le> c"
    using class_step_returns[OF assms(1)] by blast
  have "\<forall>b \<in> set bs. b ^ 2 + D < 2 ^ 52" using Cons.prems by simp
  then obtain c' where "class_loop D bs c = Inr c'" "c \<le> c'" using Cons.IH by blast
  with c show ?case by auto
qed

lemma driver_range_small:
  assumes "0 \<le> D" "D < 170" "b \<in> set [0..int_sqrt_quot D 3]"
  shows "b ^ 2 + D < 2 ^ 52"
proof -
  have "0 \<le> b" "b \<le> 169" using assms int_sqrt_quot_bounds(2)[OF assms(1), of 3] by auto
  then have "b ^ 2 \<le> 169 ^ 2" by (intro power_mono) auto
  with assms(2) show ?thesis by simp
qed

subsection \<open>Claims about the factorizer and the class number\<close>

text \<open>
  C3, as the code has it. The guard is \<^verbatim>\<open>assert n > -1\<close>: every negative \<open>n\<close> is
  refused with \<open>AssertionError\<close>, and \<open>n = 0\<close> passes the guard, finds an empty range
  and returns the single pair \<open>(1, 0)\<close>.
\<close>

theorem factors_of_n_nonpositive:
  "(n < 0 \<longrightarrow> factors_of_n n = Inl AssertionError) \<and> factors_of_n 0 = Inr [(1, 0)]"
proof
  show "n < 0 \<longrightarrow> factors_of_n n = Inl AssertionError"
    by (simp add: factors_of_n_def factors_of_n_with_def)
  show "factors_of_n 0 = Inr [(1, 0)]" by code_simp
qed

theorem factors_of_n_nonpositive_witness:
  "(-3 :: int) < 0 \<and> factors_of_n (-3) = Inl AssertionError"
  using factors_of_n_nonpositive[of "-3"] by simp

text \<open>C3 as stated fails at \<open>n = 0\<close>: the factorizer returns a list there.\<close>

theorem factors_of_n_zero_returns: "factors_of_n 0 = Inr [(1, 0)]"
  by code_simp




text \<open>
  C5: for every \<open>D\<close> from 1 to 169 the class-number computation returns a count (it is a
  function of \<open>D\<close>, hence deterministic) and the count is not negative; at \<open>D = 47\<close>
  the count is 3.
\<close>

theorem get_class_number_nonneg:
  "(1 \<le> D \<and> D < 170 \<longrightarrow> (\<exists>c. get_class_number D = Inr c \<and> 0 \<le> c))
   \<and> get_class_number 47 = Inr 3"
proof
  show "1 \<le> D \<and> D < 170 \<longrightarrow> (\<exists>c. get_class_number D = Inr c \<and> 0 \<le> c)"
    using class_loop_returns[of D "[0..int_sqrt_quot D 3]" 0] driver_range_small[of D]
    by (auto simp: get_class_number_def)
  show "get_class_number 47 = Inr 3" by code_simp
qed

theorem get_class_number_nonneg_witness:
  "(1 :: int) \<le> 163 \<and> (163 :: int) < 170 \<and> (\<exists>c. get_class_number 163 = Inr c \<and> 0 \<le> c)"
  using get_class_number_nonneg[of 163] by simp




section \<open>Properties of polynomial.py\<close>

subsection \<open>What the constructor establishes\<close>

lemma py_eq_refl: "py_eq c c"
  by (simp add: py_eq_def)












subsection \<open>Subtracting a polynomial from itself\<close>







subsection \<open>Equality of dictionaries\<close>

lemma dict_eq_same_map:
  assumes "distinct (map fst d1)" "distinct (map fst d2)" "map_of d1 = map_of d2"
  shows "dict_eq d1 d2"
proof -
  have "set (map fst d1) = set (map fst d2)"
    using assms(3) by (metis dom_map_of_conv_image_fst set_map)
  then have "card (set (map fst d1)) = card (set (map fst d2))" by simp
  moreover have "card (set (map fst d1)) = length (map fst d1)"
    using assms(1) by (rule distinct_card)
  moreover have "card (set (map fst d2)) = length (map fst d2)"
    using assms(2) by (rule distinct_card)
  ultimately have len: "length d1 = length d2" by simp
  have "map_of d2 k = Some c" if "(k, c) \<in> set d1" for k c
    using that assms(1,3) by (metis map_of_is_SomeI)
  then show ?thesis
    unfolding dict_eq_def list_all_iff using len by (auto simp: py_eq_def)
qed

subsection \<open>Claims about the polynomial\<close>

text \<open>
  C1 on the code. \<^verbatim>\<open>__eq__\<close> reads \<^verbatim>\<open>self.dc_powers.get(1, 0)\<close>: the key is 1, not 0,
  and a constant polynomial has no key 1. The constant polynomial 5 therefore compares
  unequal to the number 5 and equal to the number 0.
\<close>

theorem poly_eq_constant_compares_with_zero:
  "poly_eq (poly_init [(0, PyInt 5)] ''x'') (VNum (PyInt 5)) = Inr False
   \<and> poly_eq (poly_init [(0, PyInt 5)] ''x'') (VNum (PyInt 0)) = Inr True"
  by (simp add: poly_init_def remove_zeros_def floats_to_ints_def py_eq_def
      is_constant_def dict_get_def)

text \<open>
  C2 on the code. For a negative power \<^verbatim>\<open>__pow__\<close> returns the \<open>NotImplementedError\<close>
  object as an ordinary value: the call of \<open>x ** -1\<close> returns and raises nothing.
\<close>

theorem poly_pow_negative_returns:
  "poly_pow (poly_init [(1, PyInt 1)] ''x'') (VNum (PyInt (-1))) = Inr (VExc NotImplementedError)"
  by simp





text \<open>
  C10: two polynomials whose term maps are the same mapping (as dicts: distinct keys,
  in any order) compare equal whatever their variable labels are; and the result of
  comparing two polynomials does not change when either label is replaced.
\<close>

theorem poly_eq_ignores_label:
  "(distinct (map fst (dc_powers p)) \<and> distinct (map fst (dc_powers q))
      \<and> map_of (dc_powers p) = map_of (dc_powers q)
     \<longrightarrow> poly_eq p (VPoly q) = Inr True)
   \<and> poly_eq (p\<lparr>v := l1\<rparr>) (VPoly (q\<lparr>v := l2\<rparr>)) = poly_eq p (VPoly q)"
  using dict_eq_same_map[of "dc_powers p" "dc_powers q"] by simp

theorem poly_eq_ignores_label_witness:
  "distinct (map fst [(0, PyInt 2), (3 :: int, PyFloat (1/2))])
   \<and> poly_eq \<lparr>v = ''x'', dc_powers = [(0, PyInt 2), (3, PyFloat (1/2))]\<rparr>
        (VPoly \<lparr>v = ''t'', dc_powers = [(0, PyInt 2), (3, PyFloat (1/2))]\<rparr>) = Inr True"
  using poly_eq_ignores_label[of "\<lparr>v = ''x'', dc_powers = [(0, PyInt 2), (3, PyFloat (1/2))]\<rparr>"
      "\<lparr>v = ''t'', dc_powers = [(0, PyInt 2), (3, PyFloat (1/2))]\<rparr>"]
  by simp

section \<open>Properties of the store model\<close>

subsection \<open>Stores that extend a store\<close>

lemma extends_refl: "extends s s" by (simp add: extends_def)

lemma extends_length:
  assumes "extends s' s"
  shows "length s \<le> length s'"
proof -
  have "length (take (length s) s') = length s"
    using assms by (simp only: extends_def)
  then show ?thesis by simp
qed

lemma extends_nth: "extends s' s \<Longrightarrow> a < length s \<Longrightarrow> s' ! a = s ! a"
  unfolding extends_def by (metis nth_take)

lemma extends_trans: "extends s'' s' \<Longrightarrow> extends s' s \<Longrightarrow> extends s'' s"
  unfolding extends_def
  by (metis append_eq_conv_conj append_take_drop_id append.assoc)

lemma extends_append: "extends (s @ xs) s" by (simp add: extends_def)

lemma extends_update: "length s \<le> a \<Longrightarrow> extends s' s \<Longrightarrow> extends (s'[a := ob]) s"
  by (simp add: extends_def)

lemma extends_dict_at: "extends s' s \<Longrightarrow> dict_at s a = Some d \<Longrightarrow> dict_at s' a = Some d"
  using extends_length[of s' s] extends_nth[of s' s a]
  by (auto simp: dict_at_def split: if_splits)

lemma extends_read_poly:
  assumes "extends s' s" "read_poly s a = Some P"
  shows "read_poly s' a = Some P"
proof -
  from assms(2) have a: "a < length s" by (simp add: read_poly_def split: if_splits)
  then have "s' ! a = s ! a" "a < length s'"
    using assms(1) extends_nth extends_length by fastforce+
  with assms(2) a extends_dict_at[OF assms(1)] show ?thesis
    by (auto simp: read_poly_def split: obj.splits option.splits)
qed

lemma dict_at_update: "a < length s \<Longrightarrow> dict_at (s[a := ODict d]) a = Some d"
  by (simp add: dict_at_def)

lemma dict_at_less: "dict_at s a = Some d \<Longrightarrow> a < length s"
  by (simp add: dict_at_def split: if_splits)

lemma dict_at_same: "dict_at s a = Some d \<Longrightarrow> s[a := ODict d] = s"
proof -
  assume "dict_at s a = Some d"
  then have "s ! a = ODict d"
    by (auto simp: dict_at_def split: if_splits obj.splits)
  then show ?thesis by (metis list_update_id)
qed

lemma fold_st_add_step:
  "dict_at s dc = Some d \<Longrightarrow>
     fold (st_add_step dc) items s = s[dc := ODict (fold add_step items d)]"
proof (induction items arbitrary: s d)
  case Nil
  then show ?case by (simp add: dict_at_same)
next
  case (Cons x xs)
  obtain p c where x: "x = (p, c)" by (cases x)
  have step: "st_add_step dc x s = s[dc := ODict (add_step x d)]"
    using Cons.prems by (simp add: x st_add_step_def add_step_def dict_setitem_def st_dict_get_def)
  have "dict_at (s[dc := ODict (add_step x d)]) dc = Some (add_step x d)"
    using dict_at_less[OF Cons.prems] by (rule dict_at_update)
  from Cons.IH[OF this] show ?case by (simp add: step)
qed

lemma fold_st_sub_step:
  "dict_at s dc = Some d \<Longrightarrow>
     fold (st_sub_step dc) items s = s[dc := ODict (fold sub_step items d)]"
proof (induction items arbitrary: s d)
  case Nil
  then show ?case by (simp add: dict_at_same)
next
  case (Cons x xs)
  obtain p c where x: "x = (p, c)" by (cases x)
  have step: "st_sub_step dc x s = s[dc := ODict (sub_step x d)]"
    using Cons.prems by (simp add: x st_sub_step_def sub_step_def dict_setitem_def st_dict_get_def)
  have "dict_at (s[dc := ODict (sub_step x d)]) dc = Some (sub_step x d)"
    using dict_at_less[OF Cons.prems] by (rule dict_at_update)
  from Cons.IH[OF this] show ?case by (simp add: step)
qed

lemma fold_st_mul_step:
  "dict_at s dc = Some d \<Longrightarrow>
     fold (st_mul_step dc t1) items s = s[dc := ODict (fold (mul_step t1) items d)]"
proof (induction items arbitrary: s d)
  case Nil
  then show ?case by (simp add: dict_at_same)
next
  case (Cons x xs)
  obtain p1 c1 where t1: "t1 = (p1, c1)" by (cases t1)
  obtain p c where x: "x = (p, c)" by (cases x)
  have step: "st_mul_step dc t1 x s = s[dc := ODict (mul_step t1 x d)]"
    using Cons.prems
    by (simp add: x t1 st_mul_step_def mul_step_def dict_setitem_def st_dict_get_def Let_def)
  have "dict_at (s[dc := ODict (mul_step t1 x d)]) dc = Some (mul_step t1 x d)"
    using dict_at_less[OF Cons.prems] by (rule dict_at_update)
  from Cons.IH[OF this] show ?case by (simp add: step)
qed

lemma fold_st_mul_rows:
  "dict_at s dc = Some d \<Longrightarrow>
     fold (\<lambda>t1 st. fold (st_mul_step dc t1) items2 st) items1 s
       = s[dc := ODict (fold (\<lambda>t1 acc. fold (mul_step t1) items2 acc) items1 d)]"
proof (induction items1 arbitrary: s d)
  case Nil
  then show ?case by (simp add: dict_at_same)
next
  case (Cons t1 ts)
  have row: "fold (st_mul_step dc t1) items2 s = s[dc := ODict (fold (mul_step t1) items2 d)]"
    using Cons.prems by (rule fold_st_mul_step)
  have "dict_at (s[dc := ODict (fold (mul_step t1) items2 d)]) dc = Some (fold (mul_step t1) items2 d)"
    using dict_at_less[OF Cons.prems] by (rule dict_at_update)
  from Cons.IH[OF this] show ?case by (simp add: row)
qed


lemma dict_at_append_fresh: "dict_at (s @ ODict d # xs) (length s) = Some d"
  by (simp add: dict_at_def nth_append)

lemma st_init_fresh:
  "st_init (s @ [ODict X]) (length s) lbl =
     (s @ [ODict X, ODict (remove_zeros X), ODict (floats_to_ints (remove_zeros X)),
           OPoly lbl (length s + 2)],
      Inr (length s + 3))"
  by (simp add: st_init_def dict_at_append_fresh alloc_def)

lemma read_poly_fresh:
  "read_poly (s @ [ODict X, ODict Y, ODict Z, OPoly lbl (length s + 2)]) (length s + 3)
     = Some \<lparr>v = lbl, dc_powers = Z\<rparr>"
  by (simp add: read_poly_def dict_at_def nth_append)

lemma update_fresh: "(s @ [ODict Y])[length s := ODict X] = s @ [ODict X]"
  by simp

lemma finish_frame:
  assumes "finish s X l1 l2 = (s', res)"
  shows "extends s' s \<and> (\<forall>r. res = Inr r \<longrightarrow> length s \<le> r \<and> read_poly s' r \<noteq> None)"
  using assms read_poly_fresh[of s X "remove_zeros X" "floats_to_ints (remove_zeros X)" l1]
  by (auto simp: finish_def extends_def split: if_splits)

lemma st_add_closed:
  assumes "read_poly s a = Some P" "read_operand (s @ [ODict (dc_powers P)]) x = Some Q"
  shows "st_add s a x = finish s (fold add_step (dc_powers Q) (dc_powers P)) (v P) (v Q)"
  using assms
  by (simp add: st_add_def alloc_def fold_st_add_step[OF dict_at_append_fresh]
      st_init_fresh finish_def del: list_update.simps list_update_code)


lemma st_sub_closed:
  assumes "read_poly s a = Some P" "read_operand (s @ [ODict (dc_powers P)]) x = Some Q"
  shows "st_sub s a x = finish s (fold sub_step (dc_powers Q) (dc_powers P)) (v P) (v Q)"
  using assms
  by (simp add: st_sub_def alloc_def fold_st_sub_step[OF dict_at_append_fresh]
      st_init_fresh finish_def del: list_update.simps)

lemma st_mul_poly_closed:
  assumes "read_poly s a = Some P" "read_poly s b = Some Q"
  shows "st_mul s a (RRef b) = finish s (mul_terms (dc_powers P) (dc_powers Q)) (v P) (v Q)"
  using assms
  by (simp add: st_mul_def alloc_def fold_st_mul_rows[OF dict_at_append_fresh]
      st_init_fresh finish_def mul_terms_def del: list_update.simps)

lemma st_mul_scalar_closed:
  assumes "read_poly s a = Some P"
  shows "st_mul s a (RNum n) =
           finish s (map (\<lambda>(p, c). (p, py_mul c n)) (dc_powers P)) (v P) (v P)"
  using assms
  by (simp add: st_mul_def alloc_def st_init_fresh finish_def)

lemma st_add_frame:
  assumes "st_add s a x = (s', res)"
  shows "extends s' s \<and> (\<forall>r. res = Inr r \<longrightarrow> length s \<le> r \<and> read_poly s' r \<noteq> None)"
proof (cases "read_poly s a")
  case None
  with assms show ?thesis by (auto simp: st_add_def extends_refl)
next
  case (Some P)
  show ?thesis
  proof (cases "read_operand (s @ [ODict (dc_powers P)]) x")
    case None
    with Some assms show ?thesis by (auto simp: st_add_def alloc_def extends_append)
  next
    case (Some Q)
    with \<open>read_poly s a = Some P\<close> assms show ?thesis
      using finish_frame by (simp add: st_add_closed)
  qed
qed

lemma st_sub_frame:
  assumes "st_sub s a x = (s', res)"
  shows "extends s' s \<and> (\<forall>r. res = Inr r \<longrightarrow> length s \<le> r \<and> read_poly s' r \<noteq> None)"
proof (cases "read_poly s a")
  case None
  with assms show ?thesis by (auto simp: st_sub_def extends_refl)
next
  case (Some P)
  show ?thesis
  proof (cases "read_operand (s @ [ODict (dc_powers P)]) x")
    case None
    with Some assms show ?thesis by (auto simp: st_sub_def alloc_def extends_append)
  next
    case (Some Q)
    with \<open>read_poly s a = Some P\<close> assms show ?thesis
      using finish_frame by (simp add: st_sub_closed)
  qed
qed

lemma st_mul_frame:
  assumes "st_mul s a x = (s', res)"
  shows "extends s' s \<and> (\<forall>r. res = Inr r \<longrightarrow> length s \<le> r \<and> read_poly s' r \<noteq> None)"
proof (cases "read_poly s a")
  case None
  with assms show ?thesis by (auto simp: st_mul_def extends_refl)
next
  case (Some P)
  show ?thesis
  proof (cases x)
    case (RNum n)
    with Some assms show ?thesis using finish_frame by (simp add: st_mul_scalar_closed)
  next
    case (RRef b)
    show ?thesis
    proof (cases "read_poly s b")
      case None
      with Some RRef assms show ?thesis by (auto simp: st_mul_def extends_refl)
    next
      case (Some Q)
      with \<open>read_poly s a = Some P\<close> RRef assms show ?thesis
        using finish_frame by (simp add: st_mul_poly_closed)
    qed
  next
    case (RExc e)
    with Some assms show ?thesis by (auto simp: st_mul_def extends_refl)
  qed
qed

lemma st_pow_loop_frame:
  assumes "st_pow_loop self k s ans = (s', res)"
  shows "extends s' s \<and>
         (\<forall>r. res = Inr r \<longrightarrow> (k = 0 \<and> r = ans \<and> s' = s) \<or> (0 < k \<and> length s \<le> r \<and> read_poly s' r \<noteq> None))"
  using assms
proof (induction k arbitrary: s ans)
  case 0
  then show ?case by (auto simp: extends_refl)
next
  case (Suc k)
  obtain s1 res1 where m: "st_mul s ans (RRef self) = (s1, res1)" by (cases "st_mul s ans (RRef self)")
  have f1: "extends s1 s" "\<forall>r. res1 = Inr r \<longrightarrow> length s \<le> r \<and> read_poly s1 r \<noteq> None"
    using st_mul_frame[OF m] by blast+
  show ?case
  proof (cases res1)
    case (Inl e)
    with m Suc.prems f1 show ?thesis by auto
  next
    case (Inr ans')
    with m Suc.prems have l: "st_pow_loop self k s1 ans' = (s', res)" by simp
    have IH: "extends s' s1"
      "\<forall>r. res = Inr r \<longrightarrow> (k = 0 \<and> r = ans' \<and> s' = s1) \<or> (0 < k \<and> length s1 \<le> r \<and> read_poly s' r \<noteq> None)"
      using Suc.IH[OF l] by blast+
    have e: "extends s' s" using IH(1) f1(1) by (rule extends_trans)
    have "length s \<le> r \<and> read_poly s' r \<noteq> None" if "res = Inr r" for r
      using that IH(2) f1(2) Inr extends_length[OF f1(1)] by auto
    with e show ?thesis by auto
  qed
qed

lemma st_pow_frame:
  assumes "st_pow s a pw = (s', res)"
  shows "extends s' s
     \<and> (\<forall>n r. pw = RNum (PyInt n) \<and> 2 \<le> n \<and> res = Inr r
           \<longrightarrow> (\<exists>new. r = RRef new \<and> length s \<le> new \<and> read_poly s' new \<noteq> None))
     \<and> (pw = RNum (PyInt 1) \<longrightarrow> s' = s \<and> res = Inr (RRef a))
     \<and> (pw = RNum (PyInt 0) \<longrightarrow> s' = s \<and> res = Inr (RNum (PyInt 1)))"
proof (cases "\<exists>n. pw = RNum (PyInt n) \<and> 2 \<le> n")
  case False
  with assms show ?thesis
    by (cases "(s, a, pw)" rule: st_pow.cases) (auto simp: extends_refl split: if_splits)
next
  case True
  then obtain n where n: "pw = RNum (PyInt n)" "2 \<le> n" by blast
  obtain s1 res1 where l: "st_pow_loop a (nat (n - 1)) s a = (s1, res1)"
    by (cases "st_pow_loop a (nat (n - 1)) s a")
  have k: "0 < nat (n - 1)" using n(2) by simp
  have f: "extends s1 s" "\<forall>r. res1 = Inr r \<longrightarrow> length s \<le> r \<and> read_poly s1 r \<noteq> None"
    using st_pow_loop_frame[OF l] k by auto
  from assms n l have "s' = s1" "res = (case res1 of Inl e \<Rightarrow> Inl e | Inr ans \<Rightarrow> Inr (RRef ans))"
    by (auto split: sum.splits)
  with f n show ?thesis by (auto split: sum.splits)
qed

lemma finish_refines:
  "(l1 \<noteq> l2 \<longrightarrow> finish s X l1 l2 = (s @ [ODict X], Inl Warning))
   \<and> (l1 = l2 \<longrightarrow> (\<exists>s' r. finish s X l1 l2 = (s', Inr r) \<and> read_poly s' r = Some (poly_init X l1)))"
  using read_poly_fresh[of s X "remove_zeros X" "floats_to_ints (remove_zeros X)" l1]
  by (auto simp: finish_def poly_init_def)

lemma read_operand_fresh:
  assumes "read_poly s b = Some Q"
  shows "read_operand (s @ xs) (RRef b) = Some Q"
  using extends_read_poly[OF extends_append assms] by (simp add: read_operand_def)

lemma st_add_refines:
  assumes "read_poly s a = Some P" "read_poly s b = Some Q"
  shows "(\<forall>e. poly_add P Q = Inl e \<longrightarrow> (\<exists>s'. st_add s a (RRef b) = (s', Inl e)))
       \<and> (\<forall>R. poly_add P Q = Inr R \<longrightarrow>
             (\<exists>s' r. st_add s a (RRef b) = (s', Inr r) \<and> read_poly s' r = Some R))"
  using finish_refines[of "v P" "v Q" s "fold add_step (dc_powers Q) (dc_powers P)"]
  by (auto simp: st_add_closed[OF assms(1) read_operand_fresh[OF assms(2)]] poly_add_def Let_def)

lemma st_sub_refines:
  assumes "read_poly s a = Some P" "read_poly s b = Some Q"
  shows "(\<forall>e. poly_sub P Q = Inl e \<longrightarrow> (\<exists>s'. st_sub s a (RRef b) = (s', Inl e)))
       \<and> (\<forall>R. poly_sub P Q = Inr R \<longrightarrow>
             (\<exists>s' r. st_sub s a (RRef b) = (s', Inr r) \<and> read_poly s' r = Some R))"
  using finish_refines[of "v P" "v Q" s "fold sub_step (dc_powers Q) (dc_powers P)"]
  by (auto simp: st_sub_closed[OF assms(1) read_operand_fresh[OF assms(2)]] poly_sub_def Let_def)

lemma st_mul_poly_refines:
  assumes "read_poly s a = Some P" "read_poly s b = Some Q"
  shows "(\<forall>e. poly_mul P (VPoly Q) = Inl e \<longrightarrow> (\<exists>s'. st_mul s a (RRef b) = (s', Inl e)))
       \<and> (\<forall>R. poly_mul P (VPoly Q) = Inr R \<longrightarrow>
             (\<exists>s' r. st_mul s a (RRef b) = (s', Inr r) \<and> read_poly s' r = Some R))"
  using finish_refines[of "v P" "v Q" s "mul_terms (dc_powers P) (dc_powers Q)"]
  by (auto simp: st_mul_poly_closed[OF assms] Let_def)

lemma st_mul_scalar_refines:
  assumes "read_poly s a = Some P"
  shows "\<exists>s' r R. poly_mul P (VNum n) = Inr R \<and> st_mul s a (RNum n) = (s', Inr r)
                   \<and> read_poly s' r = Some R"
  using finish_refines[of "v P" "v P" s "map (\<lambda>(p, c). (p, py_mul c n)) (dc_powers P)"]
  by (auto simp: st_mul_scalar_closed[OF assms])

lemma st_pow_loop_refines:
  assumes "read_poly s self = Some P" "read_poly s ans = Some A"
  shows "(\<forall>e. pow_loop P k A = Inl e \<longrightarrow> (\<exists>s'. st_pow_loop self k s ans = (s', Inl e)))
       \<and> (\<forall>R. pow_loop P k A = Inr R \<longrightarrow>
             (\<exists>s' r. st_pow_loop self k s ans = (s', Inr r) \<and> read_poly s' r = Some R))"
  using assms
proof (induction k arbitrary: s ans A)
  case 0
  then show ?case by simp
next
  case (Suc k)
  note m = st_mul_poly_refines[OF Suc.prems(2) Suc.prems(1)]
  show ?case
  proof (cases "poly_mul A (VPoly P)")
    case (Inl e)
    with m obtain s1 where "st_mul s ans (RRef self) = (s1, Inl e)" by blast
    with Inl show ?thesis by simp
  next
    case (Inr A')
    with m obtain s1 r1 where s1: "st_mul s ans (RRef self) = (s1, Inr r1)"
      "read_poly s1 r1 = Some A'" by blast
    have "extends s1 s" using st_mul_frame[OF s1(1)] by blast
    then have "read_poly s1 self = Some P" using Suc.prems(1) by (rule extends_read_poly)
    from Suc.IH[OF this s1(2)] Inr s1(1) show ?thesis by simp
  qed
qed

lemma st_pow_refines:
  assumes "read_poly s a = Some P" "2 \<le> n"
  shows "(\<forall>e. poly_pow P (VNum (PyInt n)) = Inl e \<longrightarrow>
             (\<exists>s'. st_pow s a (RNum (PyInt n)) = (s', Inl e)))
       \<and> (\<forall>R. poly_pow P (VNum (PyInt n)) = Inr (VPoly R) \<longrightarrow>
             (\<exists>s' r. st_pow s a (RNum (PyInt n)) = (s', Inr (RRef r)) \<and> read_poly s' r = Some R))"
proof -
  note l = st_pow_loop_refines[OF assms(1) assms(1), of "nat (n - 1)"]
  show ?thesis
  proof (cases "pow_loop P (nat (n - 1)) P")
    case (Inl e)
    with l obtain s' where "st_pow_loop a (nat (n - 1)) s a = (s', Inl e)" by blast
    with Inl assms(2) show ?thesis by simp
  next
    case (Inr R)
    with l obtain s' r where "st_pow_loop a (nat (n - 1)) s a = (s', Inr r)"
      "read_poly s' r = Some R" by blast
    with Inr assms(2) show ?thesis by simp
  qed
qed

subsection \<open>Claim about new objects and unchanged operands\<close>

text \<open>
  C9, as the code has it. Addition, subtraction and multiplication (by a polynomial or
  a number) and a power of at least 2 extend the store and change no object that was
  there; when they return normally, what they return is a polynomial at a new address.
  \<^verbatim>\<open>__pow__\<close> leaves the store as it is for the powers 1 and 0, returning the
  operand itself for 1 and the number 1 for 0. In a store that extends \<open>s\<close>, every
  polynomial of \<open>s\<close> reads as it did in \<open>s\<close>: same label, same term map.
\<close>

theorem operators_frame:
  "((st_add s a x = (s', res) \<or> st_sub s a x = (s', res) \<or> st_mul s a x = (s', res))
      \<longrightarrow> extends s' s \<and> (\<forall>r. res = Inr r \<longrightarrow> length s \<le> r \<and> read_poly s' r \<noteq> None))
   \<and> (st_pow s a pw = (t', res') \<longrightarrow> extends t' s
        \<and> (\<forall>n r. pw = RNum (PyInt n) \<and> 2 \<le> n \<and> res' = Inr r
              \<longrightarrow> (\<exists>new. r = RRef new \<and> length s \<le> new \<and> read_poly t' new \<noteq> None))
        \<and> (pw = RNum (PyInt 1) \<longrightarrow> t' = s \<and> res' = Inr (RRef a))
        \<and> (pw = RNum (PyInt 0) \<longrightarrow> t' = s \<and> res' = Inr (RNum (PyInt 1))))
   \<and> (\<forall>u b P. extends u s \<and> read_poly s b = Some P \<longrightarrow> read_poly u b = Some P)"
  using st_add_frame[of s a x s' res] st_sub_frame[of s a x s' res] st_mul_frame[of s a x s' res]
    st_pow_frame[of s a pw t' res'] extends_read_poly[of _ s]
  by blast

theorem operators_frame_witness:
  "st_add [ODict [(1, PyInt 1)], OPoly ''x'' 0] 1 (RRef 1)
     = ([ODict [(1, PyInt 1)], OPoly ''x'' 0,
         ODict [(1, PyInt 2)], ODict [(1, PyInt 2)], ODict [(1, PyInt 2)], OPoly ''x'' 4],
        Inr 5)
   \<and> extends [ODict [(1, PyInt 1)], OPoly ''x'' 0,
         ODict [(1, PyInt 2)], ODict [(1, PyInt 2)], ODict [(1, PyInt 2)], OPoly ''x'' 4]
       [ODict [(1, PyInt 1)], OPoly ''x'' 0]
   \<and> length [ODict [(1, PyInt 1)], OPoly ''x'' 0] \<le> 5
   \<and> read_poly [ODict [(1, PyInt 1)], OPoly ''x'' 0,
         ODict [(1, PyInt 2)], ODict [(1, PyInt 2)], ODict [(1, PyInt 2)], OPoly ''x'' 4] 5 \<noteq> None
   \<and> st_pow [ODict [(1, PyInt 1)], OPoly ''x'' 0] 1 (RNum (PyInt 2))
     = ([ODict [(1, PyInt 1)], OPoly ''x'' 0,
         ODict [(2, PyInt 1)], ODict [(2, PyInt 1)], ODict [(2, PyInt 1)], OPoly ''x'' 4],
        Inr (RRef 5))"
proof -
  let ?s = "[ODict [(1, PyInt 1)], OPoly ''x'' 0]"
  let ?s' = "[ODict [(1, PyInt 1)], OPoly ''x'' 0,
         ODict [(1, PyInt 2)], ODict [(1, PyInt 2)], ODict [(1, PyInt 2)], OPoly ''x'' 4]"
  let ?t' = "[ODict [(1, PyInt 1)], OPoly ''x'' 0,
         ODict [(2, PyInt 1)], ODict [(2, PyInt 1)], ODict [(2, PyInt 1)], OPoly ''x'' 4]"
  have a: "st_add ?s 1 (RRef 1) = (?s', Inr 5)"
    by (simp add: st_add_def read_poly_def dict_at_def alloc_def read_operand_def st_add_step_def
        dict_setitem_def st_dict_get_def dict_get_def st_init_def remove_zeros_def
        floats_to_ints_def py_eq_def)
  have b: "st_pow ?s 1 (RNum (PyInt 2)) = (?t', Inr (RRef 5))"
    by (simp add: st_mul_def read_poly_def dict_at_def alloc_def st_mul_step_def
        dict_setitem_def st_dict_get_def dict_get_def st_init_def remove_zeros_def
        floats_to_ints_def py_eq_def)
  have c: "extends ?s' ?s \<and> (\<forall>r. (Inr 5 :: error + nat) = Inr r \<longrightarrow> length ?s \<le> r \<and> read_poly ?s' r \<noteq> None)"
    using a operators_frame[of ?s 1 "RRef 1" ?s' "Inr 5" "RNum (PyInt 2)" ?t' "Inr (RRef 5)"]
    by blast
  then have "extends ?s' ?s" "length ?s \<le> 5" "read_poly ?s' 5 \<noteq> None" by blast+
  with a b show ?thesis by blast
qed

text \<open>
  C9 as stated fails for the powers 1 and 0: \<open>x ** 1\<close> returns the operand (address
  1, not a new object), and \<open>x ** 0\<close> returns the number 1, not a polynomial.
\<close>

theorem pow_zero_one_not_new:
  "st_pow [ODict [(1, PyInt 1)], OPoly ''x'' 0] 1 (RNum (PyInt 1))
     = ([ODict [(1, PyInt 1)], OPoly ''x'' 0], Inr (RRef 1))
   \<and> st_pow [ODict [(1, PyInt 1)], OPoly ''x'' 0] 1 (RNum (PyInt 0))
     = ([ODict [(1, PyInt 1)], OPoly ''x'' 0], Inr (RNum (PyInt 1)))"
  by simp

end
